theory Spec2Isabelle
  imports Complex_Main "HOL-Library.Option_ord"
begin

section \<open>Chunker: \<open>split_code_into_chunks\<close> (embedding\_service.py)\<close>

text \<open>
  Python strings are modelled as \<^typ>\<open>string\<close>; one \<^typ>\<open>char\<close> stands for one
  character of the Python string, so \<^const>\<open>length\<close> is Python's \<open>len\<close>.
  \<open>str_split sep s\<close> is \<open>s.split(sep)\<close> for a one-character separator: it always
  returns at least one piece, and the empty string gives the list holding the empty string.
  \<open>str_join sep xs\<close> is \<open>sep.join(xs)\<close>.
\<close>

definition newline :: char where
  "newline = CHR 0x0A"

fun str_split :: "char \<Rightarrow> string \<Rightarrow> string list" where
  "str_split sep [] = [[]]"
| "str_split sep (c # cs) =
     (if c = sep then [] # str_split sep cs
      else (case str_split sep cs of
              [] \<Rightarrow> [[c]]
            | l # ls \<Rightarrow> (c # l) # ls))"

fun str_join :: "char \<Rightarrow> string list \<Rightarrow> string" where
  "str_join sep [] = []"
| "str_join sep [x] = x"
| "str_join sep (x # y # ys) = x @ sep # str_join sep (y # ys)"

text \<open>
  The \<open>for line in lines\<close> loop of \<open>split_code_into_chunks\<close>. The loop state is
  \<open>(chunks, current_chunk, current_length)\<close>; \<open>max_tokens\<close> is a Python \<open>int\<close>, and
  \<open>len(line) // 4\<close> is floor division of a non-negative number.
\<close>

fun chunk_loop ::
  "int \<Rightarrow> string list \<Rightarrow> string list \<Rightarrow> string list \<Rightarrow> int
     \<Rightarrow> string list \<times> string list \<times> int" where
  "chunk_loop max_tokens [] chunks current_chunk current_length =
     (chunks, current_chunk, current_length)"
| "chunk_loop max_tokens (line # lines) chunks current_chunk current_length =
     (let line_tokens = int (length line) div 4 in
      if current_length + line_tokens > max_tokens \<and> current_chunk \<noteq> []
      then chunk_loop max_tokens lines
             (chunks @ [str_join newline current_chunk]) [line] line_tokens
      else chunk_loop max_tokens lines
             chunks (current_chunk @ [line]) (current_length + line_tokens))"

definition split_code_into_chunks :: "string \<Rightarrow> int \<Rightarrow> string list" where
  "split_code_into_chunks code max_tokens =
     (case chunk_loop max_tokens (str_split newline code) [] [] 0 of
        (chunks, current_chunk, current_length) \<Rightarrow>
          if current_chunk \<noteq> [] then chunks @ [str_join newline current_chunk]
          else chunks)"

section \<open>Embedder: \<open>NomicEmbeddingService\<close> (embedding\_service.py)\<close>

text \<open>
  An embedding is a list of floats; the floats are idealised to reals. The service keeps
  \<open>embedding_cache\<close>, a dict from the MD5 hex digest of a text to its embedding. The
  digest function is a parameter \<open>md5\<close>, so nothing is assumed about collisions.

  The embedding provider is external. It is a parameter \<open>provider\<close>: the answer to the
  \<open>n\<close>-th request the service has posted (counting from 0), given the text posted.
  \<open>Response status body\<close> is an HTTP answer; \<open>body\<close> is \<open>Some e\<close> when
  \<open>result['data'][0]['embedding']\<close> can be read from it and \<open>None\<close> when reading it
  raises. \<open>RequestFailed\<close> is a transport failure or a timeout (\<open>session.post\<close> raises).
  The field \<open>requests\<close> is not in the source: it logs the texts posted to the provider,
  oldest first, so that provider calls can be counted. Hashing the text and creating the
  HTTP session are taken not to raise.
\<close>

type_synonym vector = "real list"

datatype response = Response int "vector option" | RequestFailed

record embedding_service =
  embedding_cache :: "string \<rightharpoonup> vector"
  requests :: "string list"

text \<open>What \<open>embed_single\<close> returns for a provider answer (the \<open>try\<close> block).\<close>

fun outcome :: "response \<Rightarrow> vector option" where
  "outcome (Response status body) = (if status = 200 then body else None)"
| "outcome RequestFailed = None"

text \<open>The part of \<open>embed_single\<close> after the cache check: post, and cache a success.\<close>

definition post_embedding ::
  "(string \<Rightarrow> string) \<Rightarrow> (nat \<Rightarrow> string \<Rightarrow> response) \<Rightarrow> string \<Rightarrow> embedding_service
     \<Rightarrow> vector option \<times> embedding_service" where
  "post_embedding md5 provider text s =
     (let s1 = s\<lparr>requests := requests s @ [text]\<rparr> in
      case outcome (provider (length (requests s)) text) of
        Some embedding \<Rightarrow>
          (Some embedding,
           s1\<lparr>embedding_cache := (embedding_cache s1)(md5 text \<mapsto> embedding)\<rparr>)
      | None \<Rightarrow> (None, s1))"

definition embed_single ::
  "(string \<Rightarrow> string) \<Rightarrow> (nat \<Rightarrow> string \<Rightarrow> response) \<Rightarrow> string \<Rightarrow> embedding_service
     \<Rightarrow> vector option \<times> embedding_service" where
  "embed_single md5 provider text s =
     (case embedding_cache s (md5 text) of
        Some embedding \<Rightarrow> (Some embedding, s)
      | None \<Rightarrow> post_embedding md5 provider text s)"

text \<open>
  \<open>asyncio.gather\<close> over the \<open>embed_single\<close> tasks of one batch. The tasks are started
  in input order and each runs up to its HTTP request before any answer is handled, so
  every task of the batch checks the cache as it was when the batch started (\<open>view\<close>): a
  text occurring twice in one batch is posted twice. The answers are taken to be handled
  in input order; \<open>gather\<close> returns the results in input order whatever the completion
  order. In the model no task raises, so the \<open>isinstance(result, Exception)\<close> branch of
  \<open>embed_batch\<close> is never taken.
\<close>

fun gather ::
  "(string \<Rightarrow> string) \<Rightarrow> (nat \<Rightarrow> string \<Rightarrow> response) \<Rightarrow> (string \<rightharpoonup> vector) \<Rightarrow> string list
     \<Rightarrow> embedding_service \<Rightarrow> vector option list \<times> embedding_service" where
  "gather md5 provider view [] s = ([], s)"
| "gather md5 provider view (text # batch) s =
     (case (case view (md5 text) of
              Some embedding \<Rightarrow> (Some embedding, s)
            | None \<Rightarrow> post_embedding md5 provider text s) of
        (result, s1) \<Rightarrow>
          (case gather md5 provider view batch s1 of
             (batch_results, s2) \<Rightarrow> (result # batch_results, s2)))"

text \<open>
  The loop \<open>for i in range(0, len(texts), batch_size)\<close> for a positive step;
  \<open>texts[i:i + batch_size]\<close> is \<open>take batch_size (drop i texts)\<close>.
\<close>

function batch_loop ::
  "(string \<Rightarrow> string) \<Rightarrow> (nat \<Rightarrow> string \<Rightarrow> response) \<Rightarrow> string list \<Rightarrow> nat \<Rightarrow> nat
     \<Rightarrow> vector option list \<Rightarrow> embedding_service \<Rightarrow> vector option list \<times> embedding_service" where
  "batch_loop md5 provider texts batch_size i results s =
     (if i < length texts \<and> 0 < batch_size then
        (case gather md5 provider (embedding_cache s) (take batch_size (drop i texts)) s of
           (batch_results, s1) \<Rightarrow>
             batch_loop md5 provider texts batch_size (i + batch_size)
               (results @ batch_results) s1)
      else (results, s))"
  by pat_completeness auto

termination
  by (relation "measure (\<lambda>(md5, provider, texts, batch_size, i, results, s). length texts - i)")
     auto

datatype error = ValueError | TypeError | OperationalError | ConstraintError | JSONDecodeError

text \<open>
  \<open>embed_batch\<close>. \<open>range\<close> raises \<open>ValueError\<close> for a zero step, and the range is empty
  for a negative step.
\<close>

definition embed_batch ::
  "(string \<Rightarrow> string) \<Rightarrow> (nat \<Rightarrow> string \<Rightarrow> response) \<Rightarrow> string list \<Rightarrow> int
     \<Rightarrow> embedding_service \<Rightarrow> (error + vector option list) \<times> embedding_service" where
  "embed_batch md5 provider texts batch_size s =
     (if batch_size = 0 then (Inl ValueError, s)
      else if batch_size < 0 then (Inr [], s)
      else (case batch_loop md5 provider texts (nat batch_size) 0 [] s of
              (results, s1) \<Rightarrow> (Inr results, s1)))"

text \<open>
  \<open>embed_code_snippet\<close>: the text embedded for a code snippet; \<open>if context\<close> is false
  for the empty string.
\<close>

definition format_code_snippet :: "string \<Rightarrow> string \<Rightarrow> string \<Rightarrow> string" where
  "format_code_snippet code lang context =
     ''Language: '' @ lang @ [newline]
     @ (if context \<noteq> [] then ''Context: '' @ context @ [newline] else [])
     @ ''Code:'' @ [newline] @ code"

definition embed_code_snippet ::
  "(string \<Rightarrow> string) \<Rightarrow> (nat \<Rightarrow> string \<Rightarrow> response) \<Rightarrow> string \<Rightarrow> string \<Rightarrow> string
     \<Rightarrow> embedding_service \<Rightarrow> vector option \<times> embedding_service" where
  "embed_code_snippet md5 provider code lang context s =
     embed_single md5 provider (format_code_snippet code lang context) s"

text \<open>
  What the results of a batch are compared with. \<open>item_outcome md5 provider s0 text r\<close>:
  the result \<open>r\<close> is explained by the text it belongs to alone. It is the embedding cached
  for the text's digest before the call, or what \<open>embed_single\<close> makes of a provider
  answer to a request for this very text, or an embedding that the provider returned for a
  text of the same digest (cached by an earlier batch of the same call).
\<close>

definition item_outcome ::
  "(string \<Rightarrow> string) \<Rightarrow> (nat \<Rightarrow> string \<Rightarrow> response) \<Rightarrow> embedding_service \<Rightarrow> string
     \<Rightarrow> vector option \<Rightarrow> bool" where
  "item_outcome md5 provider s0 text r \<longleftrightarrow>
     (\<exists>e. r = Some e \<and> embedding_cache s0 (md5 text) = Some e)
     \<or> (\<exists>n. r = outcome (provider n text))
     \<or> (\<exists>n t e. md5 t = md5 text \<and> outcome (provider n t) = Some e \<and> r = Some e)"

section \<open>Vector store and search: \<open>VectorService\<close> (vector\_service.py)\<close>

text \<open>
  The table \<open>code_embeddings\<close> is a list of rows in scan order, with the columns of the
  \<open>CREATE VIRTUAL TABLE ... USING vec0\<close> statement. The column \<open>code_embedding\<close> of a
  row is the vector that was written. \<open>context_info\<close> holds JSON text. The SQL statements
  of the source are part of the program and are modelled by what they do on this vec0
  table. On a connection on which the extension was not loaded the module \<open>vec0\<close> is
  unknown, and every statement on the table raises \<open>sqlite3.OperationalError\<close>; opening
  the database and reading or writing the table are taken not to fail otherwise. The
  constructor (\<open>__init__\<close> with \<open>_init_database\<close>) is not modelled: the operations are
  defined on an arbitrary service state.
\<close>

record embedding_row =
  file_id :: string
  code_embedding :: vector
  file_type :: string
  language :: string
  project_id :: string
  last_modified :: int
  source_code :: string
  file_path :: string
  function_name :: "string option"
  context_info :: string

text \<open>
  The \<open>metadata\<close> dict of \<open>index_code_snippet\<close>, reduced to the three keys the function
  reads; \<open>md_context_info\<close> is \<open>json.dumps\<close> of the value under \<open>'context_info'\<close>. A dict
  without these keys (the empty dict too) is the record with three \<open>None\<close>s.
\<close>

record metadata =
  md_file_type :: "string option"
  md_function_name :: "string option"
  md_context_info :: "string option"

text \<open>
  What the service does to the database engine is logged in \<open>trace\<close> (not in the source):
  \<open>LoadExtension ok\<close> is one \<open>SELECT load_extension(...)\<close> and its success,
  \<open>AcceleratedQuery\<close> a \<open>vec_distance_cosine\<close> query that ran, \<open>FallbackQuery\<close> a call of
  \<open>_fallback_similarity_search\<close>.
\<close>

datatype event = LoadExtension bool | AcceleratedQuery | FallbackQuery

record vector_service =
  embedder :: embedding_service
  code_embeddings :: "embedding_row list"
  trace :: "event list"

text \<open>The column type \<open>FLOAT[384]\<close> of \<open>code_embedding\<close>.\<close>

definition embedding_dim :: nat where
  "embedding_dim = 384"

text \<open>
  \<open>INSERT OR REPLACE INTO code_embeddings\<close> on the vec0 table; \<open>module_loaded\<close> says
  whether the extension was loaded on the connection. A vector that does not have the
  declared dimension is refused with an error. The vec0 table does not carry out the
  \<open>OR REPLACE\<close> clause: a row whose primary key \<open>file_id\<close> is in the table already is
  refused with a UNIQUE-constraint error (\<open>ConstraintError\<close>), and the old row stays.
  Otherwise the row is added.
\<close>

definition insert_or_replace ::
  "bool \<Rightarrow> embedding_row \<Rightarrow> embedding_row list \<Rightarrow> error + embedding_row list" where
  "insert_or_replace module_loaded row rows =
     (if \<not> module_loaded then Inl OperationalError
      else if length (code_embedding row) \<noteq> embedding_dim then Inl OperationalError
      else if list_ex (\<lambda>r. file_id r = file_id row) rows then Inl ConstraintError
      else Inr (rows @ [row]))"

text \<open>The parameter list of the \<open>INSERT\<close> in \<open>index_code_snippet\<close>; \<open>now\<close> is the clock.\<close>

definition insert_values ::
  "string \<Rightarrow> string \<Rightarrow> string \<Rightarrow> string \<Rightarrow> metadata option \<Rightarrow> int \<Rightarrow> vector \<Rightarrow> embedding_row" where
  "insert_values path content lang project md now embedding =
     \<lparr>file_id = project @ '':'' @ path,
      code_embedding = embedding,
      file_type = (case md of
                     None \<Rightarrow> lang
                   | Some m \<Rightarrow> (case md_file_type m of None \<Rightarrow> lang | Some t \<Rightarrow> t)),
      language = lang,
      project_id = project,
      last_modified = now,
      source_code = content,
      file_path = path,
      function_name = (case md of None \<Rightarrow> None | Some m \<Rightarrow> md_function_name m),
      context_info = (case md of
                        None \<Rightarrow> ''{}''
                      | Some m \<Rightarrow> (case md_context_info m of None \<Rightarrow> ''{}'' | Some j \<Rightarrow> j))\<rparr>"

text \<open>
  \<open>index_code_snippet\<close>. \<open>ext_ok\<close> says whether \<open>load_extension('vec0')\<close> succeeds on the
  connection the call opens; its failure is ignored (\<open>pass\<close>). Any exception is caught and
  the call returns \<open>False\<close>; \<open>not embedding\<close> holds for \<open>None\<close> and for the empty list.
\<close>

definition index_code_snippet ::
  "(string \<Rightarrow> string) \<Rightarrow> (nat \<Rightarrow> string \<Rightarrow> response) \<Rightarrow> bool \<Rightarrow> int
     \<Rightarrow> string \<Rightarrow> string \<Rightarrow> string \<Rightarrow> string \<Rightarrow> metadata option
     \<Rightarrow> vector_service \<Rightarrow> bool \<times> vector_service" where
  "index_code_snippet md5 provider ext_ok now path content lang project md s =
     (case embed_code_snippet md5 provider content lang (''File: '' @ path) (embedder s) of
        (result, e1) \<Rightarrow>
          (let s1 = s\<lparr>embedder := e1\<rparr> in
           case result of
             None \<Rightarrow> (False, s1)
           | Some embedding \<Rightarrow>
               if embedding = [] then (False, s1)
               else
                 (let s2 = s1\<lparr>trace := trace s1 @ [LoadExtension ext_ok]\<rparr> in
                  case insert_or_replace ext_ok
                         (insert_values path content lang project md now embedding)
                         (code_embeddings s2) of
                    Inl e \<Rightarrow> (False, s2)
                  | Inr rows \<Rightarrow> (True, s2\<lparr>code_embeddings := rows\<rparr>))))"

subsection \<open>Search\<close>

text \<open>An entry of the result list of a search; \<open>'j\<close> is the type of parsed JSON values.\<close>

record 'j search_result =
  r_file_path :: string
  r_content :: string
  r_language :: string
  r_function_name :: "string option"
  r_context_info :: 'j
  r_similarity :: real

text \<open>\<open>if project_id:\<close> and \<open>if language:\<close> hold for a non-empty string only.\<close>

fun truthy :: "string option \<Rightarrow> bool" where
  "truthy None = False"
| "truthy (Some v) = (v \<noteq> [])"

definition where_clause :: "string option \<Rightarrow> string option \<Rightarrow> embedding_row \<Rightarrow> bool" where
  "where_clause project lang r \<longleftrightarrow>
     (if truthy project then Some (project_id r) = project else True)
     \<and> (if truthy lang then Some (language r) = lang else True)"

definition make_result :: "embedding_row \<Rightarrow> 'j \<Rightarrow> real \<Rightarrow> 'j search_result" where
  "make_result row ctx similarity =
     \<lparr>r_file_path = file_path row,
      r_content = source_code row,
      r_language = language row,
      r_function_name = function_name row,
      r_context_info = ctx,
      r_similarity = similarity\<rparr>"

text \<open>\<open>row[4] or '{}'\<close>.\<close>

definition context_text :: "embedding_row \<Rightarrow> string" where
  "context_text row = (if context_info row = [] then ''{}'' else context_info row)"

text \<open>
  The accelerated path. The engine's \<open>vec_distance_cosine\<close> is a parameter \<open>vdc\<close>, applied
  to the stored vector and the query vector: it may raise an SQL error, return \<open>NULL\<close> or
  return a number. An SQL error in any selected row makes the statement raise
  \<open>sqlite3.OperationalError\<close>. \<open>ORDER BY distance\<close> is a stable ascending sort in scan
  order with \<open>NULL\<close> first (\<open>None\<close> is the least element of the order on options);
  \<open>LIMIT\<close> with a negative number does not limit.
\<close>

datatype sqlval = SqlError | SqlNull | SqlReal real

fun sql_number :: "sqlval \<Rightarrow> real option" where
  "sql_number (SqlReal d) = Some d"
| "sql_number v = None"

definition sql_limit :: "int \<Rightarrow> 'a list \<Rightarrow> 'a list" where
  "sql_limit limit xs = (if limit < 0 then xs else take (nat limit) xs)"

definition vec_query ::
  "(vector \<Rightarrow> vector \<Rightarrow> sqlval) \<Rightarrow> vector \<Rightarrow> string option \<Rightarrow> string option \<Rightarrow> int
     \<Rightarrow> embedding_row list \<Rightarrow> error + (embedding_row \<times> real option) list" where
  "vec_query vdc query_embedding project lang limit rows =
     (let selected = filter (where_clause project lang) rows in
      if list_ex (\<lambda>r. vdc (code_embedding r) query_embedding = SqlError) selected
      then Inl OperationalError
      else Inr (sql_limit limit
                  (sort_key snd
                     (map (\<lambda>r. (r, sql_number (vdc (code_embedding r) query_embedding)))
                        selected))))"

text \<open>
  The loop over \<open>cursor.fetchall()\<close> in \<open>search_similar_code\<close>: \<open>1 - row[5]\<close> raises
  \<open>TypeError\<close> for \<open>None\<close>, and \<open>json.loads\<close> (the parameter \<open>json_loads\<close>, \<open>None\<close> when it
  raises) is called for the rows that pass the threshold.
\<close>

fun accelerated_results ::
  "(string \<Rightarrow> 'j option) \<Rightarrow> real \<Rightarrow> (embedding_row \<times> real option) list
     \<Rightarrow> error + 'j search_result list" where
  "accelerated_results json_loads threshold [] = Inr []"
| "accelerated_results json_loads threshold ((row, distance) # fetched) =
     (case distance of
        None \<Rightarrow> Inl TypeError
      | Some d \<Rightarrow>
          (let similarity = 1 - d in
           if similarity \<ge> threshold then
             (case json_loads (context_text row) of
                None \<Rightarrow> Inl JSONDecodeError
              | Some ctx \<Rightarrow>
                  (case accelerated_results json_loads threshold fetched of
                     Inl e \<Rightarrow> Inl e
                   | Inr results \<Rightarrow> Inr (make_result row ctx similarity # results)))
           else accelerated_results json_loads threshold fetched))"

definition accelerated_search ::
  "(vector \<Rightarrow> vector \<Rightarrow> sqlval) \<Rightarrow> (string \<Rightarrow> 'j option) \<Rightarrow> vector \<Rightarrow> string option
     \<Rightarrow> string option \<Rightarrow> int \<Rightarrow> real \<Rightarrow> embedding_row list \<Rightarrow> error + 'j search_result list" where
  "accelerated_search vdc json_loads query_embedding project lang limit threshold rows =
     (case vec_query vdc query_embedding project lang limit rows of
        Inl e \<Rightarrow> Inl e
      | Inr fetched \<Rightarrow> accelerated_results json_loads threshold fetched)"

text \<open>
  The fallback path. \<open>json.loads(row[5])\<close> reads the stored vector; it is the parameter
  \<open>loads_embedding\<close>, applied to the vector that was written, and \<open>None\<close> when it raises
  (the vec0 table gives the column back as a binary blob, not as the JSON text that was
  written). \<open>np.dot\<close> raises \<open>ValueError\<close> for vectors of different lengths. The quotient
  by a zero product of norms is \<open>nan\<close> (\<open>None\<close> here; over the reals the dot product is 0
  as well then), and \<open>nan >= threshold\<close> is false. A row whose processing raises is
  skipped.
\<close>

definition np_dot :: "vector \<Rightarrow> vector \<Rightarrow> error + real" where
  "np_dot a b =
     (if length a \<noteq> length b then Inl ValueError
      else Inr (sum_list (map2 (*) a b)))"

definition np_norm :: "vector \<Rightarrow> real" where
  "np_norm a = sqrt (sum_list (map (\<lambda>x. x * x) a))"

definition fallback_similarity :: "vector \<Rightarrow> vector \<Rightarrow> error + real option" where
  "fallback_similarity query_vec stored_vec =
     (case np_dot query_vec stored_vec of
        Inl e \<Rightarrow> Inl e
      | Inr d \<Rightarrow>
          (let n = np_norm query_vec * np_norm stored_vec in
           if n = 0 then Inr None else Inr (Some (d / n))))"

fun fallback_results ::
  "(string \<Rightarrow> 'j option) \<Rightarrow> (vector \<Rightarrow> vector option) \<Rightarrow> vector \<Rightarrow> real
     \<Rightarrow> embedding_row list \<Rightarrow> 'j search_result list" where
  "fallback_results json_loads loads_embedding query_vec threshold [] = []"
| "fallback_results json_loads loads_embedding query_vec threshold (row # fetched) =
     (case loads_embedding (code_embedding row) of
        None \<Rightarrow> fallback_results json_loads loads_embedding query_vec threshold fetched
      | Some stored_embedding \<Rightarrow>
          (case fallback_similarity query_vec stored_embedding of
             Inl e \<Rightarrow> fallback_results json_loads loads_embedding query_vec threshold fetched
           | Inr None \<Rightarrow> fallback_results json_loads loads_embedding query_vec threshold fetched
           | Inr (Some similarity) \<Rightarrow>
               if similarity \<ge> threshold then
                 (case json_loads (context_text row) of
                    None \<Rightarrow>
                      fallback_results json_loads loads_embedding query_vec threshold fetched
                  | Some ctx \<Rightarrow>
                      make_result row ctx similarity
                      # fallback_results json_loads loads_embedding query_vec threshold fetched)
               else fallback_results json_loads loads_embedding query_vec threshold fetched))"

text \<open>
  \<open>results[:limit]\<close>; a negative \<open>limit\<close> counts from the end. \<open>results.sort(key=...,
  reverse=True)\<close> is a stable descending sort: a stable ascending sort on the negated key.
\<close>

definition py_prefix :: "int \<Rightarrow> 'a list \<Rightarrow> 'a list" where
  "py_prefix limit xs =
     (if limit \<ge> 0 then take (nat limit) xs
      else take (length xs - nat (- limit)) xs)"

text \<open>
  The \<open>SELECT\<close> of \<open>_fallback_similarity_search\<close>; it is outside the \<open>try\<close> of the loop,
  so its error leaves the function.
\<close>

definition fallback_select ::
  "bool \<Rightarrow> string option \<Rightarrow> string option \<Rightarrow> embedding_row list
     \<Rightarrow> error + embedding_row list" where
  "fallback_select module_loaded project lang rows =
     (if module_loaded then Inr (filter (where_clause project lang) rows)
      else Inl OperationalError)"

definition fallback_similarity_search ::
  "bool \<Rightarrow> (string \<Rightarrow> 'j option) \<Rightarrow> (vector \<Rightarrow> vector option) \<Rightarrow> vector
     \<Rightarrow> string option \<Rightarrow> string option \<Rightarrow> int \<Rightarrow> real \<Rightarrow> embedding_row list
     \<Rightarrow> error + 'j search_result list" where
  "fallback_similarity_search module_loaded json_loads loads_embedding query_embedding project
     lang limit threshold rows =
     (case fallback_select module_loaded project lang rows of
        Inl e \<Rightarrow> Inl e
      | Inr fetched \<Rightarrow>
          Inr (py_prefix limit
                 (sort_key (\<lambda>x. - r_similarity x)
                    (fallback_results json_loads loads_embedding query_embedding threshold
                       fetched))))"

text \<open>
  \<open>search_similar_code\<close>. \<open>ext_ok\<close> says whether \<open>load_extension('vec0')\<close> succeeds on
  the connection the call opens. A \<open>sqlite3.OperationalError\<close> from the load or from the
  query leads to the fallback path; any other exception, and any exception that leaves the
  fallback path, is caught by the outer handler, which returns the empty list.
\<close>

definition search_similar_code ::
  "(string \<Rightarrow> string) \<Rightarrow> (nat \<Rightarrow> string \<Rightarrow> response) \<Rightarrow> bool \<Rightarrow> (vector \<Rightarrow> vector \<Rightarrow> sqlval)
     \<Rightarrow> (string \<Rightarrow> 'j option) \<Rightarrow> (vector \<Rightarrow> vector option) \<Rightarrow> string \<Rightarrow> string option
     \<Rightarrow> string option \<Rightarrow> int \<Rightarrow> real \<Rightarrow> vector_service
     \<Rightarrow> 'j search_result list \<times> vector_service" where
  "search_similar_code md5 provider ext_ok vdc json_loads loads_embedding query project lang
     limit threshold s =
     (case embed_single md5 provider query (embedder s) of
        (result, e1) \<Rightarrow>
          (let s1 = s\<lparr>embedder := e1\<rparr> in
           case result of
             None \<Rightarrow> ([], s1)
           | Some query_embedding \<Rightarrow>
               if query_embedding = [] then ([], s1)
               else
                 (let s2 = s1\<lparr>trace := trace s1 @ [LoadExtension ext_ok]\<rparr>;
                      fallback =
                        (case fallback_similarity_search ext_ok json_loads loads_embedding
                                query_embedding project lang limit threshold
                                (code_embeddings s2) of
                           Inl e \<Rightarrow> []
                         | Inr results \<Rightarrow> results,
                         s2\<lparr>trace := trace s2 @ [FallbackQuery]\<rparr>)
                  in
                  if \<not> ext_ok then fallback
                  else
                    (case accelerated_search vdc json_loads query_embedding project lang
                            limit threshold (code_embeddings s2) of
                       Inl OperationalError \<Rightarrow> fallback
                     | Inl e \<Rightarrow> ([], s2\<lparr>trace := trace s2 @ [AcceleratedQuery]\<rparr>)
                     | Inr results \<Rightarrow>
                         (results, s2\<lparr>trace := trace s2 @ [AcceleratedQuery]\<rparr>)))))"

section \<open>Auxiliary definitions\<close>

text \<open>
  \<open>cache_from md5 provider s0 c\<close>: every entry of the cache \<open>c\<close> was in the cache of
  \<open>s0\<close> already or is an embedding the provider returned for a text of that digest.
\<close>

definition cache_from ::
  "(string \<Rightarrow> string) \<Rightarrow> (nat \<Rightarrow> string \<Rightarrow> response) \<Rightarrow> embedding_service
     \<Rightarrow> (string \<rightharpoonup> vector) \<Rightarrow> bool" where
  "cache_from md5 provider s0 c \<longleftrightarrow>
     (\<forall>h e. c h = Some e \<longrightarrow>
        embedding_cache s0 h = Some e \<or> (\<exists>n t. md5 t = h \<and> outcome (provider n t) = Some e))"

text \<open>
  A freshly constructed service (\<open>__init__\<close>), and sample collaborators used to run the
  model on concrete inputs: a provider whose second answer (request number 1) is a failure,
  a provider that always fails, and a digest that is the text itself.
\<close>

definition new_embedding_service :: embedding_service where
  "new_embedding_service = \<lparr>embedding_cache = Map.empty, requests = []\<rparr>"

definition flaky_provider :: "nat \<Rightarrow> string \<Rightarrow> response" where
  "flaky_provider n t = (if n = 1 then RequestFailed else Response 200 (Some [real n]))"

definition failing_provider :: "nat \<Rightarrow> string \<Rightarrow> response" where
  "failing_provider n t = RequestFailed"

definition plain_digest :: "string \<Rightarrow> string" where
  "plain_digest t = t"

text \<open>A row whose vector has the dimension of the table.\<close>

definition dim_ok :: "embedding_row \<Rightarrow> bool" where
  "dim_ok r \<longleftrightarrow> length (code_embedding r) = embedding_dim"

text \<open>
  A service state with an empty cache, the given table and nothing logged yet.
\<close>

definition service_on :: "embedding_row list \<Rightarrow> vector_service" where
  "service_on rows =
     \<lparr>embedder = \<lparr>embedding_cache = Map.empty, requests = []\<rparr>,
      code_embeddings = rows,
      trace = []\<rparr>"


definition spread :: "real \<Rightarrow> real \<Rightarrow> vector" where
  "spread a b = a # b # replicate 382 0"


text \<open>
  Two ways the column \<open>code_embedding\<close> can answer \<open>json.loads(row[5])\<close>: the vec0
  table gives a binary blob, for which \<open>json.loads\<close> raises; a column that holds the JSON
  text gives the vector back.
\<close>

definition vec0_column :: "vector \<Rightarrow> vector option" where
  "vec0_column v = None"

definition text_column :: "vector \<Rightarrow> vector option" where
  "text_column v = Some v"

text \<open>
  A sample engine operator: the cosine distance \<open>1 - cos\<close> in exact arithmetic,
  \<open>NULL\<close> for a zero vector and an error for vectors of different lengths.
\<close>

definition exact_vec_distance_cosine :: "vector \<Rightarrow> vector \<Rightarrow> sqlval" where
  "exact_vec_distance_cosine a b =
     (case fallback_similarity b a of
        Inl e \<Rightarrow> SqlError
      | Inr None \<Rightarrow> SqlNull
      | Inr (Some c) \<Rightarrow> SqlReal (1 - c))"

text \<open>A sample \<open>json.loads\<close> that accepts every text (and returns it).\<close>

definition parse_any :: "string \<Rightarrow> string option" where
  "parse_any t = Some t"

text \<open>
  What a result list must satisfy: every similarity is at least the threshold, and the
  similarities are non-increasing.
\<close>

definition thresholded_sorted :: "real \<Rightarrow> 'j search_result list \<Rightarrow> bool" where
  "thresholded_sorted threshold results \<longleftrightarrow>
     list_all (\<lambda>r. r_similarity r \<ge> threshold) results
     \<and> sorted_wrt (\<ge>) (map r_similarity results)"

text \<open>
  The similarity the fallback path computes for a row, where it is defined (0 otherwise),
  the parsed context of a row, and the result entry built from them.
\<close>

definition similarity_of :: "vector \<Rightarrow> embedding_row \<Rightarrow> real" where
  "similarity_of q r =
     (case fallback_similarity q (code_embedding r) of
        Inr (Some c) \<Rightarrow> c
      | _ \<Rightarrow> 0)"

definition context_of :: "(string \<Rightarrow> 'j option) \<Rightarrow> embedding_row \<Rightarrow> 'j" where
  "context_of json_loads r = the (json_loads (context_text r))"

definition result_of :: "(string \<Rightarrow> 'j option) \<Rightarrow> vector \<Rightarrow> embedding_row \<Rightarrow> 'j search_result" where
  "result_of json_loads q r = make_result r (context_of json_loads r) (similarity_of q r)"

text \<open>
  Sample rows: vectors with similarity 0, 1 and 1 to the query vector \<open>spread 1 0\<close>.
\<close>

definition sample_row :: "string \<Rightarrow> vector \<Rightarrow> embedding_row" where
  "sample_row path v = insert_values path ''pass'' ''python'' ''p1'' None 0 v"

definition sample_rows :: "embedding_row list" where
  "sample_rows =
     [sample_row ''a.py'' (spread 0 1), sample_row ''b.py'' (spread 2 0),
      sample_row ''c.py'' (spread 1 0)]"

section \<open>Properties of the chunker\<close>

lemma str_split_nonempty: "str_split sep s \<noteq> []"
  by (induction s) (auto split: list.splits)

lemma str_join_split: "str_join sep (str_split sep s) = s"
proof (induction s)
  case Nil
  show ?case by simp
next
  case (Cons c cs)
  show ?case
  proof (cases "c = sep")
    case True
    obtain l ls where "str_split sep cs = l # ls"
      using str_split_nonempty [of sep cs] by (cases "str_split sep cs") auto
    with Cons True show ?thesis by simp
  next
    case False
    obtain l ls where e: "str_split sep cs = l # ls"
      using str_split_nonempty [of sep cs] by (cases "str_split sep cs") auto
    with Cons False show ?thesis by (cases ls) auto
  qed
qed

lemma str_split_no_sep: "l \<in> set (str_split sep s) \<Longrightarrow> sep \<notin> set l"
  by (induction s arbitrary: l) (auto split: if_splits list.splits)

lemma str_split_line: "sep \<notin> set l \<Longrightarrow> str_split sep l = [l]"
  by (induction l) auto

lemma str_split_append_sep:
  "sep \<notin> set l \<Longrightarrow> str_split sep (l @ sep # s) = l # str_split sep s"
  by (induction l) auto

lemma str_split_join:
  "g \<noteq> [] \<Longrightarrow> \<forall>l\<in>set g. sep \<notin> set l \<Longrightarrow> str_split sep (str_join sep g) = g"
proof (induction sep g rule: str_join.induct)
  case (1 sep)
  then show ?case by simp
next
  case (2 sep x)
  then show ?case by (simp add: str_split_line)
next
  case (3 sep x y ys)
  then show ?case by (simp add: str_split_append_sep)
qed

lemma str_join_append:
  "xs \<noteq> [] \<Longrightarrow> ys \<noteq> [] \<Longrightarrow> str_join sep (xs @ ys) = str_join sep xs @ sep # str_join sep ys"
proof (induction sep xs rule: str_join.induct)
  case (1 sep)
  then show ?case by simp
next
  case (2 sep x)
  then show ?case by (cases ys) auto
next
  case (3 sep x y ys)
  then show ?case by simp
qed

lemma str_join_concat_split:
  "str_join sep (concat (map (str_split sep) cs)) = str_join sep cs"
proof (induction cs)
  case Nil
  show ?case by simp
next
  case (Cons c cs)
  show ?case
  proof (cases cs)
    case Nil
    then show ?thesis by (simp add: str_join_split)
  next
    case (Cons d ds)
    have ne: "concat (map (str_split sep) cs) \<noteq> []"
      using Cons str_split_nonempty [of sep d] by simp
    have "str_join sep (concat (map (str_split sep) (c # cs)))
          = str_join sep (str_split sep c) @ sep # str_join sep (concat (map (str_split sep) cs))"
      using ne str_split_nonempty [of sep c] by (simp add: str_join_append)
    also have "\<dots> = c @ sep # str_join sep cs"
      using Cons.IH by (simp add: str_join_split)
    finally show ?thesis using Cons by simp
  qed
qed

text \<open>
  The loop invariant: the lines of the finished chunks, followed by the lines of the
  current chunk and the lines still to read, are the lines of the input.
\<close>

lemma chunk_loop_lines:
  assumes "chunk_loop m ls chunks cur n = (chunks', cur', n')"
    and "\<forall>l\<in>set (cur @ ls). newline \<notin> set l"
  shows "concat (map (str_split newline) chunks') @ cur'
         = concat (map (str_split newline) chunks) @ cur @ ls"
  using assms
proof (induction ls arbitrary: chunks cur n)
  case Nil
  then show ?case by simp
next
  case (Cons line lines)
  let ?t = "int (length line) div 4"
  show ?case
  proof (cases "n + ?t > m \<and> cur \<noteq> []")
    case True
    with Cons.prems(1)
    have run: "chunk_loop m lines (chunks @ [str_join newline cur]) [line] ?t = (chunks', cur', n')"
      by (simp add: Let_def)
    have nl: "\<forall>l\<in>set ([line] @ lines). newline \<notin> set l"
      using Cons.prems(2) by simp
    have sp: "str_split newline (str_join newline cur) = cur"
      using True Cons.prems(2) by (simp add: str_split_join)
    from Cons.IH [OF run nl] sp show ?thesis by simp
  next
    case False
    with Cons.prems(1)
    have run: "chunk_loop m lines chunks (cur @ [line]) (n + ?t) = (chunks', cur', n')"
      by (auto simp: Let_def)
    have nl: "\<forall>l\<in>set ((cur @ [line]) @ lines). newline \<notin> set l"
      using Cons.prems(2) by simp
    from Cons.IH [OF run nl] show ?thesis by simp
  qed
qed

lemma chunk_loop_current_nonempty:
  "chunk_loop m ls chunks cur n = (chunks', cur', n') \<Longrightarrow> cur \<noteq> [] \<or> ls \<noteq> [] \<Longrightarrow> cur' \<noteq> []"
proof (induction ls arbitrary: chunks cur n)
  case Nil
  then show ?case by simp
next
  case (Cons line lines)
  then show ?case by (auto simp: Let_def split: if_splits)
qed

lemma split_code_into_chunks_lines:
  "concat (map (str_split newline) (split_code_into_chunks code max_tokens))
   = str_split newline code"
proof -
  obtain chunks cur n where
    run: "chunk_loop max_tokens (str_split newline code) [] [] 0 = (chunks, cur, n)"
    by (cases "chunk_loop max_tokens (str_split newline code) [] [] 0") auto
  have nl: "\<forall>l\<in>set ([] @ str_split newline code). newline \<notin> set l"
    by (simp add: str_split_no_sep)
  have inv: "concat (map (str_split newline) chunks) @ cur = str_split newline code"
    using chunk_loop_lines [OF run nl] by simp
  have cur: "cur \<noteq> []"
    using chunk_loop_current_nonempty [OF run] str_split_nonempty by simp
  have "\<forall>l\<in>set cur. newline \<notin> set l"
  proof
    fix l assume "l \<in> set cur"
    then have "l \<in> set (str_split newline code)"
      using inv by (metis Un_iff set_append)
    then show "newline \<notin> set l" by (rule str_split_no_sep)
  qed
  then have "str_split newline (str_join newline cur) = cur"
    using cur by (simp add: str_split_join)
  then show ?thesis
    using run cur inv by (simp add: split_code_into_chunks_def)
qed

text \<open>
  Claim C3. For every text and every budget (positive or not), joining the chunks returned
  by \<open>split_code_into_chunks\<close> with newlines gives back the text, and the lines of the
  chunks, taken in order, are exactly the lines of the text: no line is lost, reordered or
  cut between two chunks.
\<close>

theorem split_code_into_chunks_lossless:
  "str_join newline (split_code_into_chunks T B) = T
   \<and> concat (map (str_split newline) (split_code_into_chunks T B)) = str_split newline T"
proof -
  have "str_join newline (split_code_into_chunks T B)
        = str_join newline (concat (map (str_split newline) (split_code_into_chunks T B)))"
    by (simp add: str_join_concat_split)
  also have "\<dots> = T"
    by (simp add: split_code_into_chunks_lines str_join_split)
  finally show ?thesis
    by (simp add: split_code_into_chunks_lines)
qed

text \<open>
  Claim C10. \<open>split_code_into_chunks\<close> returns a non-empty list for every text, and for
  the empty text it returns the one-element list holding the empty string.
\<close>

theorem split_code_into_chunks_nonempty:
  "split_code_into_chunks T B \<noteq> [] \<and> split_code_into_chunks [] B = [[]]"
proof -
  obtain chunks cur n where
    run: "chunk_loop B (str_split newline T) [] [] 0 = (chunks, cur, n)"
    by (cases "chunk_loop B (str_split newline T) [] [] 0") auto
  have "cur \<noteq> []"
    using chunk_loop_current_nonempty [OF run] str_split_nonempty by simp
  then have "split_code_into_chunks T B \<noteq> []"
    using run by (simp add: split_code_into_chunks_def)
  moreover have "split_code_into_chunks [] B = [[]]"
    by (simp add: split_code_into_chunks_def)
  ultimately show ?thesis by simp
qed

section \<open>Properties of the embedder\<close>

lemma post_embedding_result:
  "fst (post_embedding md5 provider text s) = outcome (provider (length (requests s)) text)"
  by (simp add: post_embedding_def Let_def split: option.splits)

lemma post_embedding_requests:
  "requests (snd (post_embedding md5 provider text s)) = requests s @ [text]"
  by (simp add: post_embedding_def Let_def split: option.splits)

lemma post_embedding_cache:
  "embedding_cache (snd (post_embedding md5 provider text s))
   = (case outcome (provider (length (requests s)) text) of
        Some e \<Rightarrow> (embedding_cache s)(md5 text \<mapsto> e)
      | None \<Rightarrow> embedding_cache s)"
  by (simp add: post_embedding_def Let_def split: option.splits)

text \<open>
  Claim C5. After an \<open>embed_single\<close> call for a text \<open>T\<close> that returned a vector, a second
  \<open>embed_single\<close> call for \<open>T\<close> on the same service returns the same vector and leaves the
  service as it was, request log included, whatever the provider would answer: it makes no
  provider call. When the first call was a cache miss it posted exactly one request, so
  one provider call occurs across the two calls.
\<close>

theorem embed_single_second_call_cached:
  assumes "embed_single md5 provider T s = (Some v, s1)"
  shows "embed_single md5 provider' T s1 = (Some v, s1)
         \<and> (embedding_cache s (md5 T) = None \<longrightarrow> requests s1 = requests s @ [T])"
proof (cases "embedding_cache s (md5 T)")
  case None
  with assms have post: "post_embedding md5 provider T s = (Some v, s1)"
    by (simp add: embed_single_def)
  have "fst (post_embedding md5 provider T s) = Some v" using post by simp
  then have out: "outcome (provider (length (requests s)) T) = Some v"
    by (simp add: post_embedding_result)
  have "embedding_cache s1 = embedding_cache (snd (post_embedding md5 provider T s))"
    using post by simp
  then have "embedding_cache s1 (md5 T) = Some v"
    using out by (simp add: post_embedding_cache)
  moreover have "requests s1 = requests s @ [T]"
    using post_embedding_requests [of md5 provider T s] post by simp
  ultimately show ?thesis by (simp add: embed_single_def)
next
  case (Some e)
  with assms show ?thesis by (simp add: embed_single_def)
qed

theorem embed_single_second_call_cached_witness:
  "embed_single plain_digest flaky_provider ''a'' new_embedding_service
     = (Some [0], \<lparr>embedding_cache = [''a'' \<mapsto> [0]], requests = [''a'']\<rparr>)
   \<and> embed_single plain_digest failing_provider ''a''
         \<lparr>embedding_cache = [''a'' \<mapsto> [0]], requests = [''a'']\<rparr>
     = (Some [0], \<lparr>embedding_cache = [''a'' \<mapsto> [0]], requests = [''a'']\<rparr>)
   \<and> requests \<lparr>embedding_cache = [''a'' \<mapsto> [0::real]], requests = [''a'']\<rparr>
     = requests new_embedding_service @ [''a'']"
proof -
  have first: "embed_single plain_digest flaky_provider ''a'' new_embedding_service
     = (Some [0], \<lparr>embedding_cache = [''a'' \<mapsto> [0]], requests = [''a'']\<rparr>)"
    by (simp add: embed_single_def post_embedding_def new_embedding_service_def
        flaky_provider_def plain_digest_def)
  have miss: "embedding_cache new_embedding_service (plain_digest ''a'') = None"
    by (simp add: new_embedding_service_def)
  show ?thesis
    using first miss embed_single_second_call_cached [OF first, of failing_provider]
    by simp
qed

lemma cache_from_post:
  assumes "cache_from md5 provider s0 (embedding_cache s)"
  shows "cache_from md5 provider s0 (embedding_cache (snd (post_embedding md5 provider text s)))"
  using assms unfolding cache_from_def post_embedding_cache
  by (auto split: option.splits)

lemma gather_outcomes:
  assumes "gather md5 provider view batch s = (rs, s')"
    and "cache_from md5 provider s0 view"
    and "cache_from md5 provider s0 (embedding_cache s)"
  shows "list_all2 (item_outcome md5 provider s0) batch rs
         \<and> cache_from md5 provider s0 (embedding_cache s')"
  using assms
proof (induction batch arbitrary: s rs s')
  case Nil
  then show ?case by simp
next
  case (Cons item batch)
  show ?case
  proof (cases "view (md5 item)")
    case None
    obtain r s1 where p: "post_embedding md5 provider item s = (r, s1)"
      by (cases "post_embedding md5 provider item s") auto
    obtain rs1 s2 where g: "gather md5 provider view batch s1 = (rs1, s2)"
      by (cases "gather md5 provider view batch s1") auto
    from Cons.prems(1) None p g have eq: "rs = r # rs1" "s' = s2" by auto
    have c1: "cache_from md5 provider s0 (embedding_cache s1)"
      using cache_from_post [OF Cons.prems(3), of item] p by simp
    have "r = outcome (provider (length (requests s)) item)"
      using post_embedding_result [of md5 provider item s] p by simp
    then have "item_outcome md5 provider s0 item r"
      unfolding item_outcome_def by blast
    with Cons.IH [OF g Cons.prems(2) c1] eq show ?thesis by simp
  next
    case (Some e)
    obtain rs1 s2 where g: "gather md5 provider view batch s = (rs1, s2)"
      by (cases "gather md5 provider view batch s") auto
    from Cons.prems(1) Some g have eq: "rs = Some e # rs1" "s' = s2" by auto
    have "item_outcome md5 provider s0 item (Some e)"
      using Cons.prems(2) Some unfolding item_outcome_def cache_from_def by blast
    with Cons.IH [OF g Cons.prems(2) Cons.prems(3)] eq show ?thesis by simp
  qed
qed

lemma batch_loop_outcomes:
  assumes "batch_loop md5 provider texts batch_size i results s = (rs, s')"
    and "0 < batch_size"
    and "cache_from md5 provider s0 (embedding_cache s)"
  shows "\<exists>rs'. rs = results @ rs' \<and> list_all2 (item_outcome md5 provider s0) (drop i texts) rs'"
  using assms
proof (induction md5 provider texts batch_size i results s rule: batch_loop.induct)
  case (1 md5 provider texts batch_size i results s)
  show ?case
  proof (cases "i < length texts")
    case False
    with "1.prems" show ?thesis by simp
  next
    case True
    obtain brs s1 where
      g: "gather md5 provider (embedding_cache s) (take batch_size (drop i texts)) s = (brs, s1)"
      by (cases "gather md5 provider (embedding_cache s) (take batch_size (drop i texts)) s") auto
    have go: "list_all2 (item_outcome md5 provider s0) (take batch_size (drop i texts)) brs"
      and c1: "cache_from md5 provider s0 (embedding_cache s1)"
      using gather_outcomes [OF g "1.prems"(3) "1.prems"(3)] by simp_all
    have run: "batch_loop md5 provider texts batch_size (i + batch_size) (results @ brs) s1 = (rs, s')"
      using "1.prems"(1,2) True g by (simp del: batch_loop.simps add: batch_loop.simps [of _ _ _ _ i])
    have cond: "i < length texts \<and> 0 < batch_size" using True "1.prems"(2) by simp
    from "1.IH" [OF cond g [symmetric] run "1.prems"(2) c1]
    obtain rs' where rs': "rs = (results @ brs) @ rs'"
      and l: "list_all2 (item_outcome md5 provider s0) (drop (i + batch_size) texts) rs'"
      by blast
    have "drop i texts = take batch_size (drop i texts) @ drop (i + batch_size) texts"
      using append_take_drop_id [of batch_size "drop i texts"] by (simp add: add.commute)
    then have "list_all2 (item_outcome md5 provider s0) (drop i texts) (brs @ rs')"
      using go l by (metis list_all2_appendI)
    with rs' show ?thesis by simp
  qed
qed

text \<open>
  Claim C6, for a positive \<open>batch_size\<close>. \<open>embed_batch\<close> returns normally with one result
  per input text, in input order, and each result is explained by its own text alone
  (\<open>item_outcome\<close>): a failed item is \<open>None\<close> at its own position and the other items keep
  their outcomes.
\<close>

theorem embed_batch_one_result_per_input:
  assumes "0 < batch_size"
  shows "\<exists>rs. fst (embed_batch md5 provider texts batch_size s) = Inr rs
              \<and> length rs = length texts
              \<and> list_all2 (item_outcome md5 provider s) texts rs"
proof -
  obtain rs s1 where run: "batch_loop md5 provider texts (nat batch_size) 0 [] s = (rs, s1)"
    by (cases "batch_loop md5 provider texts (nat batch_size) 0 [] s") auto
  have c: "cache_from md5 provider s (embedding_cache s)"
    by (simp add: cache_from_def)
  have pos: "0 < nat batch_size" using assms by simp
  from batch_loop_outcomes [OF run pos c]
  have l: "list_all2 (item_outcome md5 provider s) texts rs" by simp
  then have "length rs = length texts" by (simp add: list_all2_lengthD)
  moreover have "fst (embed_batch md5 provider texts batch_size s) = Inr rs"
    using assms run by (simp add: embed_batch_def)
  ultimately show ?thesis using l by blast
qed

lemma flaky_batch:
  "fst (embed_batch plain_digest flaky_provider [''a'', ''b'', ''c''] 2 new_embedding_service)
   = Inr [Some [0], None, Some [2]]"
  by (simp add: embed_batch_def post_embedding_def new_embedding_service_def
      flaky_provider_def plain_digest_def)

theorem embed_batch_one_result_per_input_witness:
  "(0::int) < 2
   \<and> fst (embed_batch plain_digest flaky_provider [''a'', ''b'', ''c''] 2 new_embedding_service)
       = Inr [Some [0], None, Some [2]]
   \<and> list_all2 (item_outcome plain_digest flaky_provider new_embedding_service)
        [''a'', ''b'', ''c''] [Some [0], None, Some [2]]"
  using embed_batch_one_result_per_input
    [of 2 plain_digest flaky_provider "[''a'', ''b'', ''c'']" new_embedding_service]
  by (simp add: flaky_batch)

text \<open>
  For a \<open>batch_size\<close> that is not positive the batch does not return one result per input:
  \<open>range\<close> raises \<open>ValueError\<close> for the step 0, and for a negative step the loop body
  never runs and the result list is empty.
\<close>

theorem embed_batch_nonpositive_batch_size:
  "fst (embed_batch plain_digest flaky_provider [''a''] 0 new_embedding_service) = Inl ValueError
   \<and> fst (embed_batch plain_digest flaky_provider [''a''] (- 1) new_embedding_service) = Inr []"
  by (simp add: embed_batch_def)

section \<open>Properties of the vector store and the search\<close>

text \<open>
  Claim C8. When embedding the query text fails (\<open>embed_single\<close> returns \<open>None\<close>),
  \<open>search_similar_code\<close> returns the empty list; it does not raise, and it does not touch
  the database (the trace is unchanged).
\<close>

theorem search_similar_code_embedding_failure:
  assumes "fst (embed_single md5 provider query (embedder s)) = None"
  shows "fst (search_similar_code md5 provider ext_ok vdc json_loads loads_embedding query project lang
                limit threshold s) = []
         \<and> trace (snd (search_similar_code md5 provider ext_ok vdc json_loads loads_embedding query project lang
                limit threshold s)) = trace s"
  using assms
  by (cases "embed_single md5 provider query (embedder s)")
     (simp add: search_similar_code_def)

theorem search_similar_code_embedding_failure_witness:
  "fst (embed_single plain_digest failing_provider ''q'' (embedder (service_on []))) = None
   \<and> fst (search_similar_code plain_digest failing_provider True exact_vec_distance_cosine
            parse_any vec0_column ''q'' None None 10 (7 / 10) (service_on [])) = []"
proof -
  have f: "fst (embed_single plain_digest failing_provider ''q'' (embedder (service_on [])))
           = None"
    by (simp add: embed_single_def post_embedding_def service_on_def failing_provider_def)
  from search_similar_code_embedding_failure
         [OF f, where ext_ok = True and vdc = exact_vec_distance_cosine
            and json_loads = parse_any and loads_embedding = vec0_column and project = None
            and lang = None and limit = 10 and threshold = "7 / 10"] f
  show ?thesis by simp
qed

lemma insert_or_replace_dim:
  "insert_or_replace module_loaded row rows = Inr rows' \<Longrightarrow> list_all dim_ok rows \<Longrightarrow> list_all dim_ok rows'"
  by (auto simp: insert_or_replace_def dim_ok_def list_all_iff split: if_splits)

text \<open>
  Claim C4. An \<open>index_code_snippet\<close> call whose embedding does not have 384 components
  returns \<open>False\<close> and leaves the table as it was: the vector is neither truncated nor
  padded nor stored. No call can bring a row of another dimension into a table whose rows
  all have dimension 384.
\<close>

theorem index_code_snippet_dimension_mismatch:
  assumes "index_code_snippet md5 provider ext_ok now path content lang project md s = (ok, s')"
  shows "(\<forall>v. fst (embed_code_snippet md5 provider content lang (''File: '' @ path) (embedder s))
                = Some v \<longrightarrow> length v \<noteq> embedding_dim
              \<longrightarrow> \<not> ok \<and> code_embeddings s' = code_embeddings s)
         \<and> (list_all dim_ok (code_embeddings s) \<longrightarrow> list_all dim_ok (code_embeddings s'))"
proof -
  obtain r e1 where e: "embed_code_snippet md5 provider content lang (''File: '' @ path) (embedder s) = (r, e1)"
    by (cases "embed_code_snippet md5 provider content lang (''File: '' @ path) (embedder s)") auto
  show ?thesis
  proof (cases r)
    case None
    with assms e show ?thesis by (auto simp: index_code_snippet_def)
  next
    case (Some v)
    show ?thesis
    proof (cases "insert_or_replace ext_ok (insert_values path content lang project md now v)
                    (code_embeddings s)")
      case (Inl err)
      with assms e Some show ?thesis
        by (auto simp: index_code_snippet_def Let_def split: if_splits)
    next
      case (Inr rows)
      then have len: "length v = embedding_dim"
        by (auto simp: insert_or_replace_def insert_values_def split: if_splits)
      have "list_all dim_ok (code_embeddings s) \<longrightarrow> list_all dim_ok rows"
        using insert_or_replace_dim [OF Inr] by simp
      with assms e Some Inr len show ?thesis
        by (auto simp: index_code_snippet_def Let_def split: if_splits)
    qed
  qed
qed

theorem index_code_snippet_dimension_mismatch_witness:
  "fst (embed_code_snippet plain_digest flaky_provider ''x = 1'' ''python'' (''File: '' @ ''a.py'')
          (embedder (service_on []))) = Some [0]
   \<and> length [0::real] \<noteq> embedding_dim
   \<and> \<not> fst (index_code_snippet plain_digest flaky_provider True 1 ''a.py'' ''x = 1'' ''python''
              ''p1'' None (service_on []))
   \<and> code_embeddings (snd (index_code_snippet plain_digest flaky_provider True 1 ''a.py''
              ''x = 1'' ''python'' ''p1'' None (service_on []))) = []"
proof -
  let ?s = "service_on []"
  have e: "fst (embed_code_snippet plain_digest flaky_provider ''x = 1'' ''python''
             (''File: '' @ ''a.py'') (embedder ?s)) = Some [0]"
    by (simp add: embed_code_snippet_def embed_single_def post_embedding_def
        service_on_def flaky_provider_def)
  have d: "length [0::real] \<noteq> embedding_dim" by (simp add: embedding_dim_def)
  have r: "code_embeddings ?s = []" by (simp add: service_on_def)
  have run: "index_code_snippet plain_digest flaky_provider True 1 ''a.py'' ''x = 1'' ''python''
               ''p1'' None ?s
             = (fst (index_code_snippet plain_digest flaky_provider True 1 ''a.py'' ''x = 1''
                       ''python'' ''p1'' None ?s),
                snd (index_code_snippet plain_digest flaky_provider True 1 ''a.py'' ''x = 1''
                       ''python'' ''p1'' None ?s))"
    by simp
  from index_code_snippet_dimension_mismatch [OF run] e d r
  show ?thesis by simp
qed


lemma index_code_snippet_without_extension:
  "fst (index_code_snippet md5 provider False now path content lang project md s) = False
   \<and> code_embeddings
         (snd (index_code_snippet md5 provider False now path content lang project md s))
       = code_embeddings s"
  by (cases "embed_code_snippet md5 provider content lang (''File: '' @ path) (embedder s)")
     (auto simp: index_code_snippet_def insert_or_replace_def Let_def split: option.splits)






lemma thresholded_sorted_Nil: "thresholded_sorted threshold []"
  by (simp add: thresholded_sorted_def)

lemma fallback_results_threshold:
  "r \<in> set (fallback_results json_loads loads_embedding q threshold rows) \<Longrightarrow> r_similarity r \<ge> threshold"
  by (induction rows)
     (auto simp: make_result_def split: sum.splits option.splits if_splits)

lemma sorted_negated_key:
  "sorted (map (\<lambda>x. - f x) xs) \<Longrightarrow> sorted_wrt (\<ge>) (map (f :: 'a \<Rightarrow> real) xs)"
  by (induction xs) auto

lemma fallback_search_thresholded_sorted:
  assumes "fallback_similarity_search module_loaded json_loads loads_embedding q project lang
             limit threshold rows = Inr results"
  shows "thresholded_sorted threshold results"
proof -
  let ?found = "fallback_results json_loads loads_embedding q threshold
                  (filter (where_clause project lang) rows)"
  let ?sorted = "sort_key (\<lambda>x. - r_similarity x) ?found"
  have s: "sorted_wrt (\<ge>) (map r_similarity ?sorted)"
    by (rule sorted_negated_key) (rule sorted_sort_key)
  have t: "\<forall>r\<in>set ?sorted. r_similarity r \<ge> threshold"
    using fallback_results_threshold by fastforce
  have "\<And>n. thresholded_sorted threshold (take n ?sorted)"
  proof -
    fix n
    have "sorted_wrt (\<ge>) (map r_similarity (take n ?sorted))"
      using s by (simp add: take_map [symmetric])
    moreover have "\<forall>r\<in>set (take n ?sorted). r_similarity r \<ge> threshold"
      using t by (meson in_set_takeD)
    ultimately show "thresholded_sorted threshold (take n ?sorted)"
      by (simp add: thresholded_sorted_def list_all_iff)
  qed
  with assms show ?thesis
    by (auto simp: fallback_similarity_search_def fallback_select_def py_prefix_def
        split: if_splits)
qed

lemma fallback_outcome_thresholded_sorted:
  "thresholded_sorted threshold
     (case fallback_similarity_search module_loaded json_loads loads_embedding q project lang
             limit threshold rows of
        Inl e \<Rightarrow> []
      | Inr results \<Rightarrow> results)"
  using fallback_search_thresholded_sorted [of module_loaded json_loads loads_embedding q
      project lang limit threshold rows]
  by (cases "fallback_similarity_search module_loaded json_loads loads_embedding q project lang
               limit threshold rows")
     (simp_all add: thresholded_sorted_Nil)

lemma accelerated_results_origin:
  "accelerated_results json_loads threshold fetched = Inr results \<Longrightarrow> r \<in> set results
   \<Longrightarrow> r_similarity r \<ge> threshold
       \<and> (\<exists>row d. (row, Some d) \<in> set fetched \<and> r_similarity r = 1 - d)"
proof (induction json_loads threshold fetched arbitrary: results
       rule: accelerated_results.induct)
  case (1 json_loads threshold)
  then show ?case by simp
next
  case (2 json_loads threshold row distance fetched)
  show ?case
  proof (cases distance)
    case None
    with "2.prems" show ?thesis by simp
  next
    case (Some d)
    show ?thesis
    proof (cases "1 - d \<ge> threshold")
      case False
      with "2.prems" Some have "accelerated_results json_loads threshold fetched = Inr results"
        by (simp add: Let_def)
      from "2.IH"(2) [OF Some refl _ this "2.prems"(2)] False show ?thesis by auto
    next
      case True
      with "2.prems" Some obtain ctx rest where
        c: "json_loads (context_text row) = Some ctx"
        and rest: "accelerated_results json_loads threshold fetched = Inr rest"
        and res: "results = make_result row ctx (1 - d) # rest"
        by (auto simp: Let_def split: option.splits sum.splits)
      show ?thesis
      proof (cases "r = make_result row ctx (1 - d)")
        case True
        with \<open>1 - d \<ge> threshold\<close> Some show ?thesis by (auto simp: make_result_def)
      next
        case False
        with res "2.prems"(2) have "r \<in> set rest" by simp
        from "2.IH"(1) [OF Some refl True c rest this] show ?thesis by auto
      qed
    qed
  qed
qed

lemma accelerated_results_sorted:
  "accelerated_results json_loads threshold fetched = Inr results \<Longrightarrow> sorted (map snd fetched)
   \<Longrightarrow> sorted_wrt (\<ge>) (map r_similarity results)"
proof (induction json_loads threshold fetched arbitrary: results
       rule: accelerated_results.induct)
  case (1 json_loads threshold)
  then show ?case by auto
next
  case (2 json_loads threshold row distance fetched)
  have tail: "sorted (map snd fetched)" using "2.prems"(2) by simp
  show ?case
  proof (cases distance)
    case None
    with "2.prems" show ?thesis by simp
  next
    case (Some d)
    show ?thesis
    proof (cases "1 - d \<ge> threshold")
      case False
      with "2.prems" Some have "accelerated_results json_loads threshold fetched = Inr results"
        by (simp add: Let_def)
      from "2.IH"(2) [OF Some refl _ this tail] False show ?thesis by auto
    next
      case True
      with "2.prems" Some obtain ctx rest where
        c: "json_loads (context_text row) = Some ctx"
        and rest: "accelerated_results json_loads threshold fetched = Inr rest"
        and res: "results = make_result row ctx (1 - d) # rest"
        by (auto simp: Let_def split: option.splits sum.splits)
      have "sorted_wrt (\<ge>) (map r_similarity rest)"
        using "2.IH"(1) [OF Some refl True c rest tail] .
      moreover have "\<forall>r\<in>set rest. r_similarity r \<le> 1 - d"
      proof
        fix r assume "r \<in> set rest"
        from accelerated_results_origin [OF rest this]
        obtain row' d' where in_f: "(row', Some d') \<in> set fetched"
          and sim: "r_similarity r = 1 - d'" by blast
        have "Some d \<le> snd (row', Some d')"
          using "2.prems"(2) Some in_f by (auto simp del: less_eq_option_Some)
        then show "r_similarity r \<le> 1 - d" using sim by simp
      qed
      ultimately show ?thesis using res by (simp add: make_result_def)
    qed
  qed
qed

lemma accelerated_search_thresholded_sorted:
  assumes "accelerated_search vdc json_loads q project lang limit threshold rows = Inr results"
  shows "thresholded_sorted threshold results"
proof -
  from assms obtain fetched where
    q: "vec_query vdc q project lang limit rows = Inr fetched"
    and r: "accelerated_results json_loads threshold fetched = Inr results"
    by (auto simp: accelerated_search_def split: sum.splits)
  have "sorted (map snd fetched)"
  proof -
    have "\<And>xs :: (embedding_row \<times> real option) list. sorted (map snd (sql_limit limit (sort_key snd xs)))"
      by (simp add: sql_limit_def take_map [symmetric])
    with q show ?thesis
      by (auto simp: vec_query_def Let_def split: if_splits)
  qed
  from accelerated_results_sorted [OF r this] accelerated_results_origin [OF r]
  show ?thesis by (auto simp: thresholded_sorted_def list_all_iff)
qed

text \<open>
  Claim C2. Every result list of \<open>search_similar_code\<close>, of the fallback path and of the
  accelerated path (when it returns) holds only entries with similarity at least the
  threshold, in non-increasing order of similarity.
\<close>

theorem search_results_thresholded_and_sorted:
  "thresholded_sorted threshold
     (fst (search_similar_code md5 provider ext_ok vdc json_loads loads_embedding query project
             lang limit threshold s))
   \<and> (case fallback_similarity_search module_loaded json_loads loads_embedding q project lang
              limit threshold rows of
         Inl e \<Rightarrow> True
       | Inr results \<Rightarrow> thresholded_sorted threshold results)
   \<and> (case accelerated_search vdc json_loads q project lang limit threshold rows of
         Inl e \<Rightarrow> True
       | Inr results \<Rightarrow> thresholded_sorted threshold results)"
proof -
  obtain r e1 where e: "embed_single md5 provider query (embedder s) = (r, e1)"
    by (cases "embed_single md5 provider query (embedder s)") auto
  have top: "thresholded_sorted threshold
     (fst (search_similar_code md5 provider ext_ok vdc json_loads loads_embedding query project
             lang limit threshold s))"
  proof (cases r)
    case None
    with e show ?thesis by (simp add: search_similar_code_def thresholded_sorted_Nil)
  next
    case (Some qe)
    let ?rows = "code_embeddings s"
    show ?thesis
    proof (cases "accelerated_search vdc json_loads qe project lang limit threshold ?rows")
      case (Inl err)
      with e Some show ?thesis
        by (cases err)
           (simp_all add: search_similar_code_def Let_def thresholded_sorted_Nil
              fallback_outcome_thresholded_sorted)
    next
      case (Inr results)
      from accelerated_search_thresholded_sorted [OF Inr] e Some Inr show ?thesis
        by (simp add: search_similar_code_def Let_def thresholded_sorted_Nil
            fallback_outcome_thresholded_sorted)
    qed
  qed
  have acc: "(case accelerated_search vdc json_loads q project lang limit threshold rows of
         Inl e \<Rightarrow> True
       | Inr results \<Rightarrow> thresholded_sorted threshold results)"
    using accelerated_search_thresholded_sorted
    by (cases "accelerated_search vdc json_loads q project lang limit threshold rows") auto
  have fb: "(case fallback_similarity_search module_loaded json_loads loads_embedding q project
                    lang limit threshold rows of
         Inl e \<Rightarrow> True
       | Inr results \<Rightarrow> thresholded_sorted threshold results)"
    using fallback_search_thresholded_sorted
    by (cases "fallback_similarity_search module_loaded json_loads loads_embedding q project
                 lang limit threshold rows") auto
  from top acc fb show ?thesis by blast
qed

lemma insort_key_same_order:
  fixes f :: "'a \<Rightarrow> 'k::linorder" and g :: "'a \<Rightarrow> 'l::linorder"
  assumes "\<forall>y\<in>set ys. f x \<le> f y \<longleftrightarrow> g x \<le> g y"
  shows "insort_key f x ys = insort_key g x ys"
  using assms by (induction ys) auto

lemma sort_key_same_order:
  fixes f :: "'a \<Rightarrow> 'k::linorder" and g :: "'a \<Rightarrow> 'l::linorder"
  assumes "\<forall>x\<in>set xs. \<forall>y\<in>set xs. f x \<le> f y \<longleftrightarrow> g x \<le> g y"
  shows "sort_key f xs = sort_key g xs"
  using assms
proof (induction xs)
  case Nil
  show ?case by simp
next
  case (Cons x xs)
  then have IH: "sort_key f xs = sort_key g xs" by simp
  have "\<forall>y\<in>set (sort_key g xs). f x \<le> f y \<longleftrightarrow> g x \<le> g y"
    using Cons.prems by simp
  then have "insort_key f x (sort_key g xs) = insort_key g x (sort_key g xs)"
    by (rule insort_key_same_order)
  with IH show ?case by simp
qed

lemma insort_key_map_image:
  "insort_key f (h x) (map h ys) = map h (insort_key (\<lambda>y. f (h y)) x ys)"
  by (induction ys) auto

lemma sort_key_map_image:
  "sort_key f (map h xs) = map h (sort_key (\<lambda>y. f (h y)) xs)"
  by (induction xs) (simp_all add: insort_key_map_image)

lemma filter_take_sorted:
  fixes f :: "'a \<Rightarrow> 'k::linorder"
  assumes "sorted (map f ys)"
    and "\<And>x y. P y \<Longrightarrow> f x \<le> f y \<Longrightarrow> P x"
  shows "filter P (take n ys) = take n (filter P ys)"
  using assms(1)
proof (induction ys arbitrary: n)
  case Nil
  show ?case by simp
next
  case (Cons y ys)
  show ?case
  proof (cases "P y")
    case True
    with Cons show ?thesis by (cases n) auto
  next
    case False
    have "\<forall>z\<in>set ys. \<not> P z"
    proof
      fix z assume "z \<in> set ys"
      then have "f y \<le> f z" using Cons.prems by auto
      with False assms(2) show "\<not> P z" by blast
    qed
    then have none: "filter P ys = []" by (simp add: filter_empty_conv)
    have "filter P (take n (y # ys)) = []"
      using \<open>\<forall>z\<in>set ys. \<not> P z\<close> False
      by (cases n) (auto simp: filter_empty_conv dest: in_set_takeD)
    with none False show ?thesis by simp
  qed
qed

lemma fallback_results_defined:
  assumes "\<forall>r\<in>set xs. loads_embedding (code_embedding r) = Some (code_embedding r)
                        \<and> (\<exists>c. fallback_similarity q (code_embedding r) = Inr (Some c))
                        \<and> json_loads (context_text r) \<noteq> None"
  shows "fallback_results json_loads loads_embedding q threshold xs
         = map (result_of json_loads q) (filter (\<lambda>r. similarity_of q r \<ge> threshold) xs)"
  using assms
proof (induction xs)
  case Nil
  show ?case by simp
next
  case (Cons r xs)
  then obtain c ctx where c: "fallback_similarity q (code_embedding r) = Inr (Some c)"
    and j: "json_loads (context_text r) = Some ctx"
    and l: "loads_embedding (code_embedding r) = Some (code_embedding r)"
    by auto
  have IH: "fallback_results json_loads loads_embedding q threshold xs
         = map (result_of json_loads q) (filter (\<lambda>r. similarity_of q r \<ge> threshold) xs)"
    using Cons by simp
  show ?case
    using c j l IH by (simp add: similarity_of_def context_of_def result_of_def)
qed

lemma accelerated_results_defined:
  assumes "\<forall>r\<in>set xs. json_loads (context_text r) \<noteq> None"
  shows "accelerated_results json_loads threshold
           (map (\<lambda>r. (r, Some (1 - similarity_of q r))) xs)
         = Inr (map (result_of json_loads q) (filter (\<lambda>r. similarity_of q r \<ge> threshold) xs))"
  using assms
proof (induction xs)
  case Nil
  show ?case by simp
next
  case (Cons r xs)
  then obtain ctx where j: "json_loads (context_text r) = Some ctx" by auto
  have IH: "accelerated_results json_loads threshold
           (map (\<lambda>r. (r, Some (1 - similarity_of q r))) xs)
         = Inr (map (result_of json_loads q) (filter (\<lambda>r. similarity_of q r \<ge> threshold) xs))"
    using Cons by simp
  show ?case
    using j IH by (simp add: context_of_def result_of_def Let_def)
qed

lemma r_similarity_result_of: "r_similarity (result_of json_loads q r) = similarity_of q r"
  by (simp add: result_of_def make_result_def)

text \<open>
  Where the two paths agree, in exact arithmetic. Take a non-negative limit and a table in
  which every row selected by the filters is read back by \<open>json.loads(row[5])\<close> as the
  vector that was written, has a defined cosine similarity \<open>c\<close> to the query vector (same
  length, non-zero norms), is given the distance \<open>1 - c\<close> by the engine's operator, and
  has a context that parses. Then the accelerated path returns exactly the list the
  fallback path returns on a connection with the extension loaded.
\<close>

lemma accelerated_search_eq_fallback:
  assumes "0 \<le> limit"
    and "\<forall>r\<in>set rows. where_clause project lang r \<longrightarrow>
           loads_embedding (code_embedding r) = Some (code_embedding r)"
    and "\<forall>r\<in>set rows. where_clause project lang r \<longrightarrow>
           (\<exists>c. fallback_similarity q (code_embedding r) = Inr (Some c)
                \<and> vdc (code_embedding r) q = SqlReal (1 - c))"
    and "\<forall>r\<in>set rows. where_clause project lang r \<longrightarrow> json_loads (context_text r) \<noteq> None"
  shows "accelerated_search vdc json_loads q project lang limit threshold rows
         = fallback_similarity_search True json_loads loads_embedding q project lang limit
             threshold rows"
proof -
  let ?sel = "filter (where_clause project lang) rows"
  let ?P = "\<lambda>r. similarity_of q r \<ge> threshold"
  let ?k = "\<lambda>r. - similarity_of q r"
  let ?n = "nat limit"
  have vdc: "\<forall>r\<in>set ?sel. vdc (code_embedding r) q = SqlReal (1 - similarity_of q r)"
    using assms(3) by (auto simp: similarity_of_def)
  have def: "\<forall>r\<in>set ?sel. loads_embedding (code_embedding r) = Some (code_embedding r)
                        \<and> (\<exists>c. fallback_similarity q (code_embedding r) = Inr (Some c))
                        \<and> json_loads (context_text r) \<noteq> None"
    using assms(2,3,4) by auto
  have js: "\<forall>r\<in>set (take ?n (sort_key ?k ?sel)). json_loads (context_text r) \<noteq> None"
    using assms(4) by (auto dest: in_set_takeD)

  \<comment> \<open>the fallback path\<close>
  have fb: "fallback_similarity_search True json_loads loads_embedding q project lang limit
              threshold rows
            = Inr (map (result_of json_loads q) (take ?n (sort_key ?k (filter ?P ?sel))))"
  proof -
    have "sort_key (\<lambda>x. - r_similarity x) (map (result_of json_loads q) (filter ?P ?sel))
          = map (result_of json_loads q) (sort_key ?k (filter ?P ?sel))"
      by (simp add: sort_key_map_image r_similarity_result_of)
    then show ?thesis
      using assms(1) fallback_results_defined [OF def, of threshold]
      by (simp add: fallback_similarity_search_def fallback_select_def py_prefix_def take_map)
  qed

  \<comment> \<open>the accelerated path\<close>
  have no_err: "\<not> list_ex (\<lambda>r. vdc (code_embedding r) q = SqlError) ?sel"
    using vdc by (auto simp: list_ex_iff)
  have pairs: "map (\<lambda>r. (r, sql_number (vdc (code_embedding r) q))) ?sel
               = map (\<lambda>r. (r, Some (1 - similarity_of q r))) ?sel"
    using vdc by (intro map_cong) auto
  have "sort_key snd (map (\<lambda>r. (r, Some (1 - similarity_of q r))) ?sel)
        = map (\<lambda>r. (r, Some (1 - similarity_of q r)))
            (sort_key (\<lambda>r. Some (1 - similarity_of q r)) ?sel)"
    by (simp add: sort_key_map_image)
  also have "sort_key (\<lambda>r. Some (1 - similarity_of q r)) ?sel = sort_key ?k ?sel"
    by (rule sort_key_same_order) simp
  finally have ordered:
    "sort_key snd (map (\<lambda>r. (r, Some (1 - similarity_of q r))) ?sel)
     = map (\<lambda>r. (r, Some (1 - similarity_of q r))) (sort_key ?k ?sel)" .
  have query: "vec_query vdc q project lang limit rows
               = Inr (map (\<lambda>r. (r, Some (1 - similarity_of q r))) (take ?n (sort_key ?k ?sel)))"
    using assms(1) no_err
    by (simp add: vec_query_def Let_def pairs ordered sql_limit_def take_map)
  have acc: "accelerated_search vdc json_loads q project lang limit threshold rows
             = Inr (map (result_of json_loads q) (filter ?P (take ?n (sort_key ?k ?sel))))"
    using accelerated_results_defined [OF js, of threshold q]
    by (simp add: accelerated_search_def query)

  \<comment> \<open>limiting before or after the threshold filter\<close>
  have "filter ?P (take ?n (sort_key ?k ?sel)) = take ?n (filter ?P (sort_key ?k ?sel))"
    by (rule filter_take_sorted [where f = ?k]) simp_all
  also have "\<dots> = take ?n (sort_key ?k (filter ?P ?sel))"
    by (simp add: filter_sort)
  finally show ?thesis using acc fb by simp
qed

lemma np_dot_spread: "np_dot (spread a b) (spread c d) = Inr (a * c + b * d)"
  by (simp add: np_dot_def spread_def sum_list_replicate)

lemma np_norm_spread: "np_norm (spread a b) = sqrt (a * a + b * b)"
  by (simp add: np_norm_def spread_def sum_list_replicate)

lemma sample_similarities:
  "fallback_similarity (spread 1 0) (spread 0 1) = Inr (Some 0)"
  "fallback_similarity (spread 1 0) (spread 2 0) = Inr (Some 1)"
  "fallback_similarity (spread 1 0) (spread 1 0) = Inr (Some 1)"
  "fallback_similarity (spread 1 0) (spread 0 0) = Inr None"
  by (simp_all add: fallback_similarity_def np_dot_spread np_norm_spread)

lemma sample_distances:
  "exact_vec_distance_cosine (spread 0 1) (spread 1 0) = SqlReal 1"
  "exact_vec_distance_cosine (spread 2 0) (spread 1 0) = SqlReal 0"
  "exact_vec_distance_cosine (spread 1 0) (spread 1 0) = SqlReal 0"
  "exact_vec_distance_cosine (spread 0 0) (spread 1 0) = SqlNull"
  by (simp_all add: exact_vec_distance_cosine_def sample_similarities)

lemma sample_accelerated:
  "accelerated_search exact_vec_distance_cosine parse_any (spread 1 0) None None 10 (1 / 2)
     sample_rows
   = Inr [make_result (sample_row ''b.py'' (spread 2 0)) ''{}'' 1,
          make_result (sample_row ''c.py'' (spread 1 0)) ''{}'' 1]"
  by (simp add: accelerated_search_def vec_query_def sql_limit_def where_clause_def
      sample_rows_def sample_row_def insert_values_def sample_distances parse_any_def
      context_text_def make_result_def Let_def)



text \<open>
  A second difference, on a column that gives back the JSON text that was written: a stored
  zero vector has no cosine distance, the engine's operator gives \<open>NULL\<close> for it, the loop
  of the accelerated path raises \<open>TypeError\<close> on \<open>1 - None\<close> and the search returns
  nothing; the fallback path skips that row only.
\<close>

lemma zero_vector_paths_differ:
  "accelerated_search exact_vec_distance_cosine parse_any (spread 1 0) None None 10 (1 / 2)
     [sample_row ''z.py'' (spread 0 0), sample_row ''b.py'' (spread 1 0)]
   = Inl TypeError
   \<and> fallback_similarity_search True parse_any text_column (spread 1 0) None None 10 (1 / 2)
       [sample_row ''z.py'' (spread 0 0), sample_row ''b.py'' (spread 1 0)]
     = Inr [make_result (sample_row ''b.py'' (spread 1 0)) ''{}'' 1]"
  by (simp add: accelerated_search_def vec_query_def sql_limit_def
      fallback_similarity_search_def fallback_select_def py_prefix_def where_clause_def
      sample_row_def insert_values_def sample_similarities sample_distances parse_any_def
      text_column_def context_text_def make_result_def Let_def)

theorem search_results_thresholded_and_sorted_witness:
  "accelerated_search exact_vec_distance_cosine parse_any (spread 1 0) None None 10 (1 / 2)
     sample_rows
   = Inr [make_result (sample_row ''b.py'' (spread 2 0)) ''{}'' 1,
          make_result (sample_row ''c.py'' (spread 1 0)) ''{}'' 1]
   \<and> thresholded_sorted (1 / 2)
       [make_result (sample_row ''b.py'' (spread 2 0)) ''{}'' 1,
        make_result (sample_row ''c.py'' (spread 1 0)) ''{}'' 1]"
  using search_results_thresholded_and_sorted
    [where threshold = "1 / 2" and vdc = exact_vec_distance_cosine and json_loads = parse_any
       and q = "spread 1 0" and project = None and lang = None and limit = 10
       and rows = sample_rows]
    sample_accelerated
  by simp





end
